theory Spec2Isabelle
  imports Main
begin

section \<open>The chess board engine of chess_game.py\<close>

text \<open>
  A shallow embedding of the classes \<open>ChessPiece\<close> and \<open>ChessBoard\<close>.
  Pieces are Python objects that the grid and the move history both refer to, so the
  pieces live in an explicit store and the grid holds references into it.
  Coordinates are Python integers, hence \<open>int\<close>; a subscript on a Python list
  counts from the end when it is negative and raises \<open>IndexError\<close> when it is
  out of range.
\<close>

subsection \<open>Data\<close>

datatype Color = WHITE | BLACK

datatype PieceType = PAWN | ROOK | KNIGHT | BISHOP | QUEEN | KING

text \<open>
  The attribute \<open>symbol\<close> is a one-character Python string; it is kept as the
  Unicode code point of that character. The attribute \<open>type\<close> is called
  \<open>ptype\<close> here.
\<close>

record ChessPiece =
  ptype :: PieceType
  color :: Color
  row :: int
  col :: int
  has_moved :: bool
  symbol :: nat

type_synonym ref = nat

text \<open>The dictionary appended to \<open>move_history\<close>, with its four keys.\<close>

record MoveRecord =
  mr_piece :: ref
  mr_from :: "int \<times> int"
  mr_to :: "int \<times> int"
  mr_captured :: "ref option"

text \<open>
  The attributes of a \<open>ChessBoard\<close> object (\<open>size\<close> is called
  \<open>board_size\<close>), together with the store of the piece objects its grid and its
  history refer to. The rows of the grid are created as eight separate lists and
  are never shared, so the grid is a list of lists by value.
\<close>

record ChessBoard =
  store :: "ref \<rightharpoonup> ChessPiece"
  board_size :: int
  board :: "ref option list list"
  current_turn :: Color
  move_history :: "MoveRecord list"

datatype error = IndexError

definition deref :: "ChessBoard \<Rightarrow> ref \<Rightarrow> ChessPiece" where
  "deref b p = the (store b p)"

subsection \<open>Python list subscripts\<close>

definition py_index :: "'a list \<Rightarrow> int \<Rightarrow> error + nat" where
  "py_index xs i =
     (if 0 \<le> i \<and> i < int (length xs) then Inr (nat i)
      else if i < 0 \<and> - int (length xs) \<le> i then Inr (nat (int (length xs) + i))
      else Inl IndexError)"

definition getitem :: "'a list \<Rightarrow> int \<Rightarrow> error + 'a" where
  "getitem xs i = (case py_index xs i of Inl e \<Rightarrow> Inl e | Inr n \<Rightarrow> Inr (xs ! n))"

definition setitem :: "'a list \<Rightarrow> int \<Rightarrow> 'a \<Rightarrow> error + 'a list" where
  "setitem xs i v = (case py_index xs i of Inl e \<Rightarrow> Inl e | Inr n \<Rightarrow> Inr (xs[n := v]))"

text \<open>\<open>g[r][c]\<close> and \<open>g[r][c] = v\<close> on a list of lists.\<close>

definition getitem2 :: "'a list list \<Rightarrow> int \<Rightarrow> int \<Rightarrow> error + 'a" where
  "getitem2 g r c = (case getitem g r of Inl e \<Rightarrow> Inl e | Inr rw \<Rightarrow> getitem rw c)"

definition setitem2 :: "'a list list \<Rightarrow> int \<Rightarrow> int \<Rightarrow> 'a \<Rightarrow> error + 'a list list" where
  "setitem2 g r c v =
     (case py_index g r of Inl e \<Rightarrow> Inl e
      | Inr n \<Rightarrow> (case setitem (g ! n) c v of Inl e \<Rightarrow> Inl e
                  | Inr rw \<Rightarrow> Inr (g[n := rw])))"

definition py_range :: "int \<Rightarrow> int list" where
  "py_range n = map int [0..<nat n]"

subsection \<open>ChessPiece\<close>

fun get_symbol :: "Color \<Rightarrow> PieceType \<Rightarrow> nat" where
  "get_symbol WHITE PAWN = 0x2659"
| "get_symbol WHITE ROOK = 0x2656"
| "get_symbol WHITE KNIGHT = 0x2658"
| "get_symbol WHITE BISHOP = 0x2657"
| "get_symbol WHITE QUEEN = 0x2655"
| "get_symbol WHITE KING = 0x2654"
| "get_symbol BLACK PAWN = 0x265F"
| "get_symbol BLACK ROOK = 0x265C"
| "get_symbol BLACK KNIGHT = 0x265E"
| "get_symbol BLACK BISHOP = 0x265D"
| "get_symbol BLACK QUEEN = 0x265B"
| "get_symbol BLACK KING = 0x265A"

definition ChessPiece_init :: "PieceType \<Rightarrow> Color \<Rightarrow> int \<Rightarrow> int \<Rightarrow> ChessPiece" where
  "ChessPiece_init piece_type clr r c =
     \<lparr>ptype = piece_type, color = clr, row = r, col = c, has_moved = False,
      symbol = get_symbol clr piece_type\<rparr>"

subsection \<open>ChessBoard\<close>

text \<open>
  A sequence of statements, each of which may raise: the first error ends it.
\<close>

fun seq :: "('s \<Rightarrow> error + 's) list \<Rightarrow> 's \<Rightarrow> error + 's" where
  "seq [] s = Inr s"
| "seq (f # fs) s = (case f s of Inl e \<Rightarrow> Inl e | Inr s' \<Rightarrow> seq fs s')"

text \<open>
  The statement \<open>self.board[r][c] = ChessPiece(t, clr, r, c)\<close>. The new object
  gets the next unused address \<open>n\<close>, which the constructor counts up from 0.
\<close>

fun place :: "int \<Rightarrow> int \<Rightarrow> PieceType \<Rightarrow> Color \<Rightarrow> nat \<times> ChessBoard \<Rightarrow> error + nat \<times> ChessBoard" where
  "place r c t clr (n, b) =
     (let b1 = b\<lparr>store := (store b)(n \<mapsto> ChessPiece_init t clr r c)\<rparr>
      in (case setitem2 (board b1) r c (Some n) of
            Inl e \<Rightarrow> Inl e
          | Inr g \<Rightarrow> Inr (n + 1, b1\<lparr>board := g\<rparr>)))"

definition setup_board :: "nat \<times> ChessBoard \<Rightarrow> error + nat \<times> ChessBoard" where
  "setup_board s =
     seq ([place 7 0 ROOK WHITE, place 7 1 KNIGHT WHITE, place 7 2 BISHOP WHITE,
           place 7 3 QUEEN WHITE, place 7 4 KING WHITE, place 7 5 BISHOP WHITE,
           place 7 6 KNIGHT WHITE, place 7 7 ROOK WHITE]
          @ map (\<lambda>c. place 6 c PAWN WHITE) (py_range (board_size (snd s)))
          @ [place 0 0 ROOK BLACK, place 0 1 KNIGHT BLACK, place 0 2 BISHOP BLACK,
             place 0 3 QUEEN BLACK, place 0 4 KING BLACK, place 0 5 BISHOP BLACK,
             place 0 6 KNIGHT BLACK, place 0 7 ROOK BLACK]
          @ map (\<lambda>c. place 1 c PAWN BLACK) (py_range (board_size (snd s)))) s"

text \<open>
  \<open>ChessBoard.__init__\<close>. The attributes \<open>current_turn\<close> and
  \<open>move_history\<close> are assigned after \<open>_setup_board\<close>, which reads neither.
\<close>

definition ChessBoard_init :: "int \<Rightarrow> error + ChessBoard" where
  "ChessBoard_init sz =
     (case setup_board (0, \<lparr>store = Map.empty, board_size = sz,
                             board = replicate (nat sz) (replicate (nat sz) None),
                             current_turn = WHITE, move_history = []\<rparr>) of
        Inl e \<Rightarrow> Inl e
      | Inr (n, b) \<Rightarrow> Inr (b\<lparr>current_turn := WHITE, move_history := []\<rparr>))"

text \<open>
  \<open>is_valid_move\<close>, with the board passed through so that its effect on the state
  can be stated. The argument \<open>piece\<close> is a reference.
\<close>

definition is_valid_move :: "ChessBoard \<Rightarrow> ref \<Rightarrow> int \<Rightarrow> int \<Rightarrow> error + bool \<times> ChessBoard" where
  "is_valid_move b piece new_row new_col =
     (if new_row < 0 \<or> new_row \<ge> board_size b \<or> new_col < 0 \<or> new_col \<ge> board_size b
      then Inr (False, b)
      else case getitem2 (board b) new_row new_col of
             Inl e \<Rightarrow> Inl e
           | Inr dest_piece \<Rightarrow>
               (case dest_piece of
                  Some d \<Rightarrow> if color (deref b d) = color (deref b piece)
                            then Inr (False, b) else Inr (True, b)
                | None \<Rightarrow> Inr (True, b)))"

definition move_piece :: "ChessBoard \<Rightarrow> int \<Rightarrow> int \<Rightarrow> int \<Rightarrow> int \<Rightarrow> error + bool \<times> ChessBoard" where
  "move_piece b from_row from_col to_row to_col =
     (case getitem2 (board b) from_row from_col of
        Inl e \<Rightarrow> Inl e
      | Inr None \<Rightarrow> Inr (False, b)
      | Inr (Some piece) \<Rightarrow>
          (if color (deref b piece) \<noteq> current_turn b then Inr (False, b)
           else (case is_valid_move b piece to_row to_col of
             Inl e \<Rightarrow> Inl e
           | Inr (ok, b1) \<Rightarrow>
               (if \<not> ok then Inr (False, b1)
                else (case getitem2 (board b1) to_row to_col of
                  Inl e \<Rightarrow> Inl e
                | Inr capture \<Rightarrow>
                    (let move_record = \<lparr>mr_piece = piece, mr_from = (from_row, from_col),
                                        mr_to = (to_row, to_col), mr_captured = capture\<rparr>;
                         b2 = b1\<lparr>move_history := move_history b1 @ [move_record]\<rparr>
                     in (case setitem2 (board b2) to_row to_col (Some piece) of
                       Inl e \<Rightarrow> Inl e
                     | Inr g3 \<Rightarrow>
                         (let b3 = b2\<lparr>board := g3\<rparr>
                          in (case setitem2 (board b3) from_row from_col None of
                            Inl e \<Rightarrow> Inl e
                          | Inr g4 \<Rightarrow>
                              (let b4 = b3\<lparr>board := g4\<rparr>;
                                   b5 = b4\<lparr>store := (store b4)(piece \<mapsto>
                                           (deref b4 piece)\<lparr>row := to_row, col := to_col,
                                                             has_moved := True\<rparr>)\<rparr>;
                                   b6 = b5\<lparr>current_turn :=
                                           (if current_turn b5 = WHITE then BLACK else WHITE)\<rparr>
                               in Inr (True, b6)))))))))))"

subsection \<open>The grid of the specification\<close>

text \<open>
  The board of the specification is an 8 by 8 grid whose cells have coordinates in
  \<open>[0, 8)\<close>; there is no cell at any other coordinate.
\<close>

definition in_bounds :: "int \<Rightarrow> int \<Rightarrow> bool" where
  "in_bounds r c \<longleftrightarrow> 0 \<le> r \<and> r < 8 \<and> 0 \<le> c \<and> c < 8"

definition cell :: "ChessBoard \<Rightarrow> int \<Rightarrow> int \<Rightarrow> ref option" where
  "cell b r c = (if in_bounds r c then board b ! nat r ! nat c else None)"

definition on_board :: "ChessBoard \<Rightarrow> ref \<Rightarrow> bool" where
  "on_board b p \<longleftrightarrow> (\<exists>r c. cell b r c = Some p)"

definition grid8 :: "'a list list \<Rightarrow> bool" where
  "grid8 g \<longleftrightarrow> length g = 8 \<and> (\<forall>i<8. length (g ! i) = 8)"

text \<open>
  A board state: \<open>size\<close> is 8, the grid is 8 by 8, and every reference in the
  grid denotes a piece object (a Python reference cannot dangle).
\<close>

definition wf_board :: "ChessBoard \<Rightarrow> bool" where
  "wf_board b \<longleftrightarrow> board_size b = 8 \<and> grid8 (board b) \<and>
     (\<forall>r c p. cell b r c = Some p \<longrightarrow> p \<in> dom (store b))"

text \<open>
  The board invariant of the specification: the piece in a cell stores the
  coordinates of that cell, no piece object is in two cells, and a cell is
  occupied exactly when some piece on the board stores its coordinates.
\<close>

definition board_inv :: "ChessBoard \<Rightarrow> bool" where
  "board_inv b \<longleftrightarrow> wf_board b \<and>
     (\<forall>r c p. cell b r c = Some p \<longrightarrow> row (deref b p) = r \<and> col (deref b p) = c) \<and>
     (\<forall>r c r' c' p. cell b r c = Some p \<and> cell b r' c' = Some p \<longrightarrow> r = r' \<and> c = c') \<and>
     (\<forall>r c. cell b r c \<noteq> None \<longleftrightarrow>
        (\<exists>p. on_board b p \<and> row (deref b p) = r \<and> col (deref b p) = c))"

text \<open>The references held by the grid, row by row.\<close>

definition grid_pieces :: "ChessBoard \<Rightarrow> ref list" where
  "grid_pieces b = map the (filter (\<lambda>x. x \<noteq> None) (concat (board b)))"

text \<open>The board that \<open>ChessBoard()\<close> builds (lemma \<open>ChessBoard_init_8\<close>).\<close>

definition fresh_board :: ChessBoard where
  "fresh_board =
     \<lparr>store = Map.empty(
        0 \<mapsto> ChessPiece_init ROOK WHITE 7 0,
        1 \<mapsto> ChessPiece_init KNIGHT WHITE 7 1,
        2 \<mapsto> ChessPiece_init BISHOP WHITE 7 2,
        3 \<mapsto> ChessPiece_init QUEEN WHITE 7 3,
        4 \<mapsto> ChessPiece_init KING WHITE 7 4,
        5 \<mapsto> ChessPiece_init BISHOP WHITE 7 5,
        6 \<mapsto> ChessPiece_init KNIGHT WHITE 7 6,
        7 \<mapsto> ChessPiece_init ROOK WHITE 7 7,
        8 \<mapsto> ChessPiece_init PAWN WHITE 6 0,
        9 \<mapsto> ChessPiece_init PAWN WHITE 6 1,
        10 \<mapsto> ChessPiece_init PAWN WHITE 6 2,
        11 \<mapsto> ChessPiece_init PAWN WHITE 6 3,
        12 \<mapsto> ChessPiece_init PAWN WHITE 6 4,
        13 \<mapsto> ChessPiece_init PAWN WHITE 6 5,
        14 \<mapsto> ChessPiece_init PAWN WHITE 6 6,
        15 \<mapsto> ChessPiece_init PAWN WHITE 6 7,
        16 \<mapsto> ChessPiece_init ROOK BLACK 0 0,
        17 \<mapsto> ChessPiece_init KNIGHT BLACK 0 1,
        18 \<mapsto> ChessPiece_init BISHOP BLACK 0 2,
        19 \<mapsto> ChessPiece_init QUEEN BLACK 0 3,
        20 \<mapsto> ChessPiece_init KING BLACK 0 4,
        21 \<mapsto> ChessPiece_init BISHOP BLACK 0 5,
        22 \<mapsto> ChessPiece_init KNIGHT BLACK 0 6,
        23 \<mapsto> ChessPiece_init ROOK BLACK 0 7,
        24 \<mapsto> ChessPiece_init PAWN BLACK 1 0,
        25 \<mapsto> ChessPiece_init PAWN BLACK 1 1,
        26 \<mapsto> ChessPiece_init PAWN BLACK 1 2,
        27 \<mapsto> ChessPiece_init PAWN BLACK 1 3,
        28 \<mapsto> ChessPiece_init PAWN BLACK 1 4,
        29 \<mapsto> ChessPiece_init PAWN BLACK 1 5,
        30 \<mapsto> ChessPiece_init PAWN BLACK 1 6,
        31 \<mapsto> ChessPiece_init PAWN BLACK 1 7),
      board_size = 8,
      board = [
        [Some 16, Some 17, Some 18, Some 19, Some 20, Some 21, Some 22, Some 23],
        [Some 24, Some 25, Some 26, Some 27, Some 28, Some 29, Some 30, Some 31],
        [None, None, None, None, None, None, None, None],
        [None, None, None, None, None, None, None, None],
        [None, None, None, None, None, None, None, None],
        [None, None, None, None, None, None, None, None],
        [Some 8, Some 9, Some 10, Some 11, Some 12, Some 13, Some 14, Some 15],
        [Some 0, Some 1, Some 2, Some 3, Some 4, Some 5, Some 6, Some 7]],
      current_turn = WHITE,
      move_history = []\<rparr>"

text \<open>
  The grid after \<open>g[r][c] = v\<close> with indices in range, and the state after a
  successful move of piece \<open>p\<close>, called with the source subscripts
  \<open>(fr, fc)\<close>, which denote cell \<open>(fr mod 8, fc mod 8)\<close>, and the
  destination \<open>(tr, tc)\<close> (lemma \<open>move_piece_wf\<close>).
\<close>

definition grid_set :: "'a list list \<Rightarrow> nat \<Rightarrow> nat \<Rightarrow> 'a \<Rightarrow> 'a list list" where
  "grid_set g r c v = g[r := (g ! r)[c := v]]"

definition moved :: "ChessBoard \<Rightarrow> ref \<Rightarrow> int \<Rightarrow> int \<Rightarrow> int \<Rightarrow> int \<Rightarrow> ChessBoard" where
  "moved b p fr fc tr tc =
     b\<lparr>move_history := move_history b @
          [\<lparr>mr_piece = p, mr_from = (fr, fc), mr_to = (tr, tc), mr_captured = cell b tr tc\<rparr>],
       board := grid_set (grid_set (board b) (nat tr) (nat tc) (Some p))
                  (nat (fr mod 8)) (nat (fc mod 8)) None,
       store := (store b)(p \<mapsto> (deref b p)\<lparr>row := tr, col := tc, has_moved := True\<rparr>),
       current_turn := (if current_turn b = WHITE then BLACK else WHITE)\<rparr>"

subsection \<open>Subscripts on an 8 by 8 grid\<close>

lemma upt8: "[0..<8] = [0,1,2,3,4,5,6,7]"
  by code_simp

lemma rep8: "replicate 8 x = [x,x,x,x,x,x,x,x]"
  by (simp add: numeral_eq_Suc)

lemma ChessBoard_init_8: "ChessBoard_init 8 = Inr fresh_board"
  by (simp add: ChessBoard_init_def setup_board_def py_range_def setitem2_def setitem_def
      py_index_def Let_def upt8 rep8 fresh_board_def numeral_eq_Suc)

lemma py_index_8:
  "length xs = 8 \<Longrightarrow>
   py_index xs i = (if - 8 \<le> i \<and> i < 8 then Inr (nat (i mod 8)) else Inl IndexError)"
proof -
  assume len: "length xs = 8"
  have neg: "i < 0 \<Longrightarrow> - 8 \<le> i \<Longrightarrow> 8 + i = i mod 8" by presburger
  have pos: "0 \<le> i \<Longrightarrow> i < 8 \<Longrightarrow> i mod 8 = i" by simp
  show ?thesis using len neg pos by (auto simp: py_index_def)
qed

lemma grid8_nth: "grid8 g \<Longrightarrow> n < 8 \<Longrightarrow> length (g ! n) = 8"
  by (simp add: grid8_def)

lemma mod8_less: "nat ((i::int) mod 8) < 8"
  by (simp add: nat_less_iff)

lemma getitem2_8:
  assumes "grid8 g"
  shows "getitem2 g r c =
     (if - 8 \<le> r \<and> r < 8 \<and> - 8 \<le> c \<and> c < 8
      then Inr (g ! nat (r mod 8) ! nat (c mod 8)) else Inl IndexError)"
proof -
  have l: "length g = 8" using assms by (simp add: grid8_def)
  have "length (g ! nat (r mod 8)) = 8" using assms mod8_less by (rule grid8_nth)
  then show ?thesis
    by (simp add: getitem2_def getitem_def py_index_8 l)
qed

lemma setitem2_8:
  assumes "grid8 g"
  shows "setitem2 g r c v =
     (if - 8 \<le> r \<and> r < 8 \<and> - 8 \<le> c \<and> c < 8
      then Inr (grid_set g (nat (r mod 8)) (nat (c mod 8)) v) else Inl IndexError)"
proof -
  have l: "length g = 8" using assms by (simp add: grid8_def)
  have "length (g ! nat (r mod 8)) = 8" using assms mod8_less by (rule grid8_nth)
  then show ?thesis
    by (simp add: setitem2_def setitem_def py_index_8 l grid_set_def)
qed

lemma grid8_grid_set:
  assumes "grid8 g"
  shows "grid8 (grid_set g r c v)"
proof -
  have "length (grid_set g r c v ! i) = 8" if "i < 8" for i
    using assms that by (cases "i = r") (simp_all add: grid8_def grid_set_def)
  moreover have "length (grid_set g r c v) = 8"
    using assms by (simp add: grid8_def grid_set_def)
  ultimately show ?thesis by (simp add: grid8_def)
qed

lemma grid_set_nth:
  "grid8 g \<Longrightarrow> r < 8 \<Longrightarrow> c < 8 \<Longrightarrow> r' < 8 \<Longrightarrow> c' < 8 \<Longrightarrow>
   grid_set g r c v ! r' ! c' = (if r' = r \<and> c' = c then v else g ! r' ! c')"
  by (auto simp: grid8_def grid_set_def nth_list_update)

lemma in_bounds_mod: "in_bounds r c \<Longrightarrow> r mod 8 = r \<and> c mod 8 = c"
  by (simp add: in_bounds_def)

lemma cell_getitem2:
  "wf_board b \<Longrightarrow> in_bounds r c \<Longrightarrow> getitem2 (board b) r c = Inr (cell b r c)"
  by (simp add: getitem2_8 wf_board_def cell_def in_bounds_def)

subsection \<open>The two methods on a board state\<close>

lemma in_bounds_mod8: "in_bounds (r mod 8) (c mod 8)"
  by (simp add: in_bounds_def)

lemma cell_mod8: "cell b (r mod 8) (c mod 8) = board b ! nat (r mod 8) ! nat (c mod 8)"
  by (simp add: cell_def in_bounds_mod8)

lemma is_valid_move_wf:
  assumes "wf_board b"
  shows "is_valid_move b p r c =
     Inr (in_bounds r c \<and> (\<forall>d. cell b r c = Some d \<longrightarrow> color (deref b d) \<noteq> color (deref b p)), b)"
proof (cases "in_bounds r c")
  case True
  with assms have "getitem2 (board b) r c = Inr (cell b r c)" by (rule cell_getitem2)
  with True assms show ?thesis
    by (auto simp: is_valid_move_def in_bounds_def wf_board_def split: option.splits)
next
  case False
  with assms show ?thesis
    by (auto simp: is_valid_move_def in_bounds_def wf_board_def)
qed

lemma move_piece_wf:
  assumes "wf_board b"
  shows "move_piece b fr fc tr tc =
     (if \<not> (- 8 \<le> fr \<and> fr < 8 \<and> - 8 \<le> fc \<and> fc < 8) then Inl IndexError
      else case cell b (fr mod 8) (fc mod 8) of
             None \<Rightarrow> Inr (False, b)
           | Some p \<Rightarrow>
               if color (deref b p) = current_turn b \<and> in_bounds tr tc \<and>
                  (\<forall>d. cell b tr tc = Some d \<longrightarrow> color (deref b d) \<noteq> color (deref b p))
               then Inr (True, moved b p fr fc tr tc)
               else Inr (False, b))"
proof -
  have g: "grid8 (board b)" using assms by (simp add: wf_board_def)
  have g2: "grid8 (grid_set (board b) i j v)" for i j v using g by (rule grid8_grid_set)
  have tgt: "in_bounds tr tc \<Longrightarrow> - 8 \<le> tr \<and> tr < 8 \<and> - 8 \<le> tc \<and> tc < 8 \<and> tr mod 8 = tr \<and> tc mod 8 = tc"
    by (simp add: in_bounds_def)
  have tcell: "in_bounds tr tc \<Longrightarrow> board b ! nat tr ! nat tc = cell b tr tc"
    by (simp add: cell_def)
  show ?thesis
    by (auto simp: move_piece_def getitem2_8 [OF g] setitem2_8 [OF g] setitem2_8 [OF g2]
        is_valid_move_wf [OF assms] cell_mod8 tgt tcell moved_def deref_def Let_def
        split: option.splits)
qed


lemma cell_moved:
  assumes "wf_board b" "in_bounds tr tc"
  shows "cell (moved b p fr fc tr tc) r c =
     (if r = fr mod 8 \<and> c = fc mod 8 then None
      else if r = tr \<and> c = tc then Some p else cell b r c)"
proof (cases "in_bounds r c")
  case False
  with assms(2) in_bounds_mod8 [of fr fc] show ?thesis
    by (auto simp: cell_def)
next
  case True
  have g: "grid8 (board b)" using assms(1) by (simp add: wf_board_def)
  have g2: "grid8 (grid_set (board b) (nat tr) (nat tc) (Some p))"
    using g by (rule grid8_grid_set)
  have n: "nat r < 8" "nat c < 8" "nat tr < 8" "nat tc < 8"
    using True assms(2) by (simp_all add: in_bounds_def nat_less_iff)
  have e: "nat r = nat (fr mod 8) \<longleftrightarrow> r = fr mod 8" "nat c = nat (fc mod 8) \<longleftrightarrow> c = fc mod 8"
    "nat r = nat tr \<longleftrightarrow> r = tr" "nat c = nat tc \<longleftrightarrow> c = tc"
    using True assms(2) by (auto simp: in_bounds_def)
  show ?thesis
    using True
    by (simp add: cell_def moved_def grid_set_nth g g2 n mod8_less e)
qed

lemma deref_moved:
  "deref (moved b p fr fc tr tc) q =
     (if q = p then (deref b p)\<lparr>row := tr, col := tc, has_moved := True\<rparr> else deref b q)"
  by (simp add: deref_def moved_def)

lemma wf_board_moved:
  assumes "wf_board b" "in_bounds tr tc"
  shows "wf_board (moved b p fr fc tr tc)"
proof -
  have "grid8 (board (moved b p fr fc tr tc))"
    using assms(1) by (simp add: moved_def wf_board_def grid8_grid_set)
  moreover have "board_size (moved b p fr fc tr tc) = 8"
    using assms(1) by (simp add: moved_def wf_board_def)
  moreover have "q \<in> dom (store (moved b p fr fc tr tc))"
    if "cell (moved b p fr fc tr tc) r c = Some q" for r c q
  proof -
    have "q = p \<or> cell b r c = Some q"
      using that by (simp add: cell_moved [OF assms] split: if_splits)
    then show ?thesis using assms(1) by (auto simp: moved_def wf_board_def)
  qed
  ultimately show ?thesis unfolding wf_board_def by blast
qed

lemma int_in_8: "0 \<le> (r::int) \<Longrightarrow> r < 8 \<Longrightarrow> r = 0 \<or> r = 1 \<or> r = 2 \<or> r = 3 \<or> r = 4 \<or> r = 5 \<or> r = 6 \<or> r = 7"
  by arith

lemma nat_in_8: "(i::nat) < 8 \<Longrightarrow> i = 0 \<or> i = 1 \<or> i = 2 \<or> i = 3 \<or> i = 4 \<or> i = 5 \<or> i = 6 \<or> i = 7"
  by arith

subsection \<open>The fresh board and the invariant\<close>

lemma grid8_fresh_board: "grid8 (board fresh_board)"
  unfolding grid8_def
proof (intro conjI allI impI)
  show "length (board fresh_board) = 8" by (simp add: fresh_board_def)
  fix k :: nat
  assume "k < 8"
  from nat_in_8 [OF this] show "length (board fresh_board ! k) = 8"
    by (elim disjE) (simp_all add: fresh_board_def)
qed

lemma fresh_board_cells:
  assumes "cell fresh_board r c = Some p"
  shows "row (deref fresh_board p) = r \<and> col (deref fresh_board p) = c \<and> p \<in> dom (store fresh_board)"
proof -
  have ib: "in_bounds r c" using assms by (simp add: cell_def split: if_splits)
  then have r: "r = 0 \<or> r = 1 \<or> r = 2 \<or> r = 3 \<or> r = 4 \<or> r = 5 \<or> r = 6 \<or> r = 7"
    using int_in_8 by (simp add: in_bounds_def)
  have c: "c = 0 \<or> c = 1 \<or> c = 2 \<or> c = 3 \<or> c = 4 \<or> c = 5 \<or> c = 6 \<or> c = 7"
    using ib int_in_8 by (simp add: in_bounds_def)
  show ?thesis
    using r c assms
    by (elim disjE) (simp_all add: cell_def in_bounds_def fresh_board_def deref_def ChessPiece_init_def)
qed

lemma wf_fresh_board: "wf_board fresh_board"
  unfolding wf_board_def
  using grid8_fresh_board fresh_board_cells by (auto simp: fresh_board_def)

lemma board_inv_core:
  assumes "wf_board b"
    and "\<And>r c p. cell b r c = Some p \<Longrightarrow> row (deref b p) = r \<and> col (deref b p) = c"
  shows "board_inv b"
proof -
  have two: "r = r' \<and> c = c'" if "cell b r c = Some p" "cell b r' c' = Some p" for r c r' c' p
    using assms(2) [OF that(1)] assms(2) [OF that(2)] by simp
  have three: "cell b r c \<noteq> None \<longleftrightarrow>
      (\<exists>p. on_board b p \<and> row (deref b p) = r \<and> col (deref b p) = c)" for r c
  proof
    assume "cell b r c \<noteq> None"
    then obtain p where p: "cell b r c = Some p" by auto
    then have "on_board b p" by (auto simp: on_board_def)
    with assms(2) [OF p] show "\<exists>p. on_board b p \<and> row (deref b p) = r \<and> col (deref b p) = c"
      by blast
  next
    assume "\<exists>p. on_board b p \<and> row (deref b p) = r \<and> col (deref b p) = c"
    then obtain p r' c' where p: "cell b r' c' = Some p" "row (deref b p) = r" "col (deref b p) = c"
      by (auto simp: on_board_def)
    from assms(2) [OF p(1)] p(2,3) have "r' = r" "c' = c" by simp_all
    with p(1) show "cell b r c \<noteq> None" by simp
  qed
  show ?thesis
    unfolding board_inv_def using assms two three by blast
qed

lemma board_inv_fresh_board: "board_inv fresh_board"
  using wf_fresh_board fresh_board_cells by (intro board_inv_core) auto

lemma board_inv_moved:
  assumes inv: "board_inv b" and tgt: "in_bounds tr tc"
    and src: "cell b (fr mod 8) (fc mod 8) = Some p"
    and ne: "\<not> (tr = fr mod 8 \<and> tc = fc mod 8)"
  shows "board_inv (moved b p fr fc tr tc)"
proof (rule board_inv_core)
  have wf: "wf_board b" using inv by (simp add: board_inv_def)
  show "wf_board (moved b p fr fc tr tc)" using wf tgt by (rule wf_board_moved)
  fix r c q
  assume q: "cell (moved b p fr fc tr tc) r c = Some q"
  have pos: "\<And>r c p. cell b r c = Some p \<Longrightarrow> row (deref b p) = r \<and> col (deref b p) = c"
    using inv by (simp add: board_inv_def)
  from q have nsrc: "\<not> (r = fr mod 8 \<and> c = fc mod 8)"
    by (simp add: cell_moved [OF wf tgt] split: if_splits)
  show "row (deref (moved b p fr fc tr tc) q) = r \<and> col (deref (moved b p fr fc tr tc) q) = c"
  proof (cases "r = tr \<and> c = tc")
    case True
    with q nsrc have "q = p" by (auto simp: cell_moved [OF wf tgt] split: if_splits)
    with True show ?thesis by (simp add: deref_moved)
  next
    case False
    with q nsrc have old: "cell b r c = Some q"
      by (auto simp: cell_moved [OF wf tgt] split: if_splits)
    have "q \<noteq> p"
    proof
      assume "q = p"
      with old pos [OF src] pos [OF old] nsrc show False by simp
    qed
    with pos [OF old] show ?thesis by (simp add: deref_moved)
  qed
qed

lemmas fresh_eval = cell_def in_bounds_def fresh_board_def deref_def ChessPiece_init_def

lemma fresh_cells:
  "cell fresh_board 6 4 = Some 12" "cell fresh_board 4 4 = None" "cell fresh_board 7 4 = Some 4"
  "color (deref fresh_board 12) = WHITE" "color (deref fresh_board 4) = WHITE"
  "current_turn fresh_board = WHITE"
  by (simp_all add: fresh_eval)

subsection \<open>When a move succeeds\<close>

text \<open>
  C1. On every board state and for all integer coordinates, \<open>move_piece\<close>
  returns \<open>True\<close> if and only if the source cell, read as the method reads it,
  \<open>self.board[from_row][from_col]\<close>, holds a piece, that piece's colour is
  \<open>current_turn\<close>, the destination lies in \<open>[0, 8)\<close> in both components,
  and the destination cell holds no piece of the same colour. For a source in
  \<open>[0, 8)\<close> that read is the content of grid cell \<open>(from_row, from_col)\<close>.
\<close>

theorem move_piece_true_iff:
  assumes "wf_board b"
  shows "((\<exists>b'. move_piece b fr fc tr tc = Inr (True, b')) \<longleftrightarrow>
            (\<exists>p. getitem2 (board b) fr fc = Inr (Some p) \<and>
                 color (deref b p) = current_turn b \<and> in_bounds tr tc \<and>
                 \<not> (\<exists>d. cell b tr tc = Some d \<and> color (deref b d) = color (deref b p)))) \<and>
         (in_bounds fr fc \<longrightarrow>
            ((\<exists>b'. move_piece b fr fc tr tc = Inr (True, b')) \<longleftrightarrow>
               (\<exists>p. cell b fr fc = Some p \<and>
                    color (deref b p) = current_turn b \<and> in_bounds tr tc \<and>
                    \<not> (\<exists>d. cell b tr tc = Some d \<and> color (deref b d) = color (deref b p)))))"
proof -
  have g: "grid8 (board b)" using assms by (simp add: wf_board_def)
  have rd: "getitem2 (board b) fr fc =
      (if - 8 \<le> fr \<and> fr < 8 \<and> - 8 \<le> fc \<and> fc < 8
       then Inr (cell b (fr mod 8) (fc mod 8)) else Inl IndexError)"
    by (simp add: getitem2_8 [OF g] cell_mod8)
  have gen: "(\<exists>b'. move_piece b fr fc tr tc = Inr (True, b')) \<longleftrightarrow>
            (\<exists>p. getitem2 (board b) fr fc = Inr (Some p) \<and>
                 color (deref b p) = current_turn b \<and> in_bounds tr tc \<and>
                 \<not> (\<exists>d. cell b tr tc = Some d \<and> color (deref b d) = color (deref b p)))"
    unfolding rd by (auto simp: move_piece_wf [OF assms] split: option.splits)
  have "getitem2 (board b) fr fc = Inr (cell b fr fc)" if "in_bounds fr fc"
    using assms that by (rule cell_getitem2)
  with gen show ?thesis by auto
qed

text \<open>
  On the fresh board the white pawn on (6, 4) may go to the empty cell (4, 4) and may
  not go to (7, 4), where the white king stands.
\<close>

theorem move_piece_true_iff_witness:
  "wf_board fresh_board \<and> in_bounds 6 4 \<and>
   map_sum id fst (move_piece fresh_board 6 4 4 4) = Inr True \<and>
   map_sum id fst (move_piece fresh_board 6 4 7 4) = Inr False"
proof -
  have i: "in_bounds 6 4" "in_bounds 4 4" "in_bounds 7 4" by (simp_all add: in_bounds_def)
  have t: "\<exists>b'. move_piece fresh_board 6 4 4 4 = Inr (True, b')"
    using conjunct2 [OF move_piece_true_iff [OF wf_fresh_board, of 6 4 4 4]] fresh_cells i
    by simp
  have f: "\<not> (\<exists>b'. move_piece fresh_board 6 4 7 4 = Inr (True, b'))"
    using conjunct2 [OF move_piece_true_iff [OF wf_fresh_board, of 6 4 7 4]] fresh_cells i
    by simp
  have "move_piece fresh_board 6 4 7 4 \<noteq> Inl IndexError"
    by (subst move_piece_wf [OF wf_fresh_board]) (simp add: fresh_eval)
  with f have "map_sum id fst (move_piece fresh_board 6 4 7 4) = Inr False"
    by (cases "move_piece fresh_board 6 4 7 4") (auto intro: error.exhaust)
  with t wf_fresh_board i show ?thesis by auto
qed

subsection \<open>A rejected move changes nothing\<close>

text \<open>
  C2. Whenever \<open>move_piece\<close> returns \<open>False\<close>, the state after the call is
  the state before it: the grid, the store with every piece's \<open>row\<close>,
  \<open>col\<close> and \<open>has_moved\<close>, the move history and the turn. This holds on any
  state whatever, and for each path that returns \<open>False\<close>.
\<close>

theorem move_piece_false_unchanged:
  assumes "move_piece b fr fc tr tc = Inr (False, b')"
  shows "b' = b"
  using assms
  by (auto simp: move_piece_def is_valid_move_def Let_def
      split: sum.splits option.splits if_splits)

text \<open>
  The four rejections on the fresh board: an empty source, a black pawn on white's turn,
  a rook onto its own pawn, and a destination off the board.
\<close>

theorem move_piece_false_unchanged_witness:
  "move_piece fresh_board 4 4 5 5 = Inr (False, fresh_board) \<and>
   move_piece fresh_board 1 0 2 0 = Inr (False, fresh_board) \<and>
   move_piece fresh_board 7 0 6 0 = Inr (False, fresh_board) \<and>
   move_piece fresh_board 6 0 8 0 = Inr (False, fresh_board)"
proof -
  have a: "\<exists>b'. move_piece fresh_board 4 4 5 5 = Inr (False, b')"
    by (subst move_piece_wf [OF wf_fresh_board]) (simp add: fresh_eval)
  have b: "\<exists>b'. move_piece fresh_board 1 0 2 0 = Inr (False, b')"
    by (subst move_piece_wf [OF wf_fresh_board]) (simp add: fresh_eval)
  have c: "\<exists>b'. move_piece fresh_board 7 0 6 0 = Inr (False, b')"
    by (subst move_piece_wf [OF wf_fresh_board]) (simp add: fresh_eval)
  have d: "\<exists>b'. move_piece fresh_board 6 0 8 0 = Inr (False, b')"
    by (subst move_piece_wf [OF wf_fresh_board]) (simp add: fresh_eval)
  from a b c d show ?thesis
    by (auto dest: move_piece_false_unchanged)
qed

subsection \<open>The state after a move\<close>

text \<open>
  C3. Whenever \<open>move_piece\<close> returns \<open>True\<close>, the turn afterwards is the
  other colour, the moved piece stores the destination as its \<open>row\<close> and
  \<open>col\<close>, the destination cell holds that piece, the source cell is empty (as
  a cell of the grid and as read back through the source subscripts), and the piece's
  \<open>has_moved\<close> is \<open>True\<close>.
\<close>

theorem move_piece_true_post:
  assumes "wf_board b" and "move_piece b fr fc tr tc = Inr (True, b')"
  shows "\<exists>p. cell b (fr mod 8) (fc mod 8) = Some p \<and>
              current_turn b' = (if current_turn b = WHITE then BLACK else WHITE) \<and>
              current_turn b' \<noteq> current_turn b \<and>
              row (deref b' p) = tr \<and> col (deref b' p) = tc \<and>
              cell b' tr tc = Some p \<and>
              cell b' fr fc = None \<and> cell b' (fr mod 8) (fc mod 8) = None \<and>
              getitem2 (board b') fr fc = Inr None \<and>
              has_moved (deref b' p)"
proof -
  from assms(2) obtain p where
    rng: "- 8 \<le> fr \<and> fr < 8 \<and> - 8 \<le> fc \<and> fc < 8" and
    src: "cell b (fr mod 8) (fc mod 8) = Some p" and
    tgt: "in_bounds tr tc" and
    b': "b' = moved b p fr fc tr tc"
    by (auto simp: move_piece_wf [OF assms(1)] split: option.splits if_splits)
  have wf': "wf_board b'" unfolding b' using assms(1) tgt by (rule wf_board_moved)
  have c1: "cell b' (fr mod 8) (fc mod 8) = None"
    by (simp add: b' cell_moved [OF assms(1) tgt])
  have ne: "\<not> (tr = fr mod 8 \<and> tc = fc mod 8)"
  proof
    assume e: "tr = fr mod 8 \<and> tc = fc mod 8"
    with src have "cell b tr tc = Some p" by simp
    with assms(2) src e rng show False
      by (auto simp: move_piece_wf [OF assms(1)] split: option.splits if_splits)
  qed
  have c2: "cell b' tr tc = Some p"
    using ne by (simp add: b' cell_moved [OF assms(1) tgt])
  have c3: "cell b' fr fc = None"
  proof (cases "in_bounds fr fc")
    case True
    then have "fr mod 8 = fr \<and> fc mod 8 = fc" by (rule in_bounds_mod)
    with c1 show ?thesis by simp
  next
    case False
    then show ?thesis by (simp add: cell_def)
  qed
  have g: "getitem2 (board b') fr fc = Inr None"
    using wf' rng c1 by (simp add: getitem2_8 wf_board_def cell_mod8)
  have t: "current_turn b' = (if current_turn b = WHITE then BLACK else WHITE)"
    by (simp add: b' moved_def)
  then have t2: "current_turn b' \<noteq> current_turn b"
    by (cases "current_turn b") simp_all
  have d: "row (deref b' p) = tr \<and> col (deref b' p) = tc \<and> has_moved (deref b' p)"
    by (simp add: b' deref_moved)
  from src t t2 d c2 c3 c1 g show ?thesis by blast
qed

text \<open>The white pawn's move from (6, 4) to (4, 4) on the fresh board.\<close>

theorem move_piece_true_post_witness:
  "wf_board fresh_board \<and>
   move_piece fresh_board 6 4 4 4 = Inr (True, moved fresh_board 12 6 4 4 4) \<and>
   cell fresh_board 6 4 = Some 12 \<and>
   current_turn (moved fresh_board 12 6 4 4 4) = BLACK \<and>
   row (deref (moved fresh_board 12 6 4 4 4) 12) = 4 \<and>
   col (deref (moved fresh_board 12 6 4 4 4) 12) = 4 \<and>
   cell (moved fresh_board 12 6 4 4 4) 4 4 = Some 12 \<and>
   cell (moved fresh_board 12 6 4 4 4) 6 4 = None \<and>
   has_moved (deref (moved fresh_board 12 6 4 4 4) 12)"
proof -
  have m: "move_piece fresh_board 6 4 4 4 = Inr (True, moved fresh_board 12 6 4 4 4)"
    by (subst move_piece_wf [OF wf_fresh_board]) (simp add: fresh_eval)
  have s: "cell fresh_board 6 4 = Some 12" "current_turn fresh_board = WHITE"
    by (simp_all add: fresh_eval)
  from move_piece_true_post [OF wf_fresh_board m] s wf_fresh_board m show ?thesis
    by auto
qed

subsection \<open>The move history and captures\<close>

text \<open>
  C4. On every board state (a state that satisfies the board invariant), a call of
  \<open>move_piece\<close> that returns \<open>False\<close> leaves the move history as it was,
  and one that returns \<open>True\<close> appends exactly one record, of the moved piece,
  the source and destination as given, and the former content of the destination
  cell as \<open>captured\<close>: \<open>None\<close> when that cell was empty; otherwise the
  piece that stood there, which has the other colour, is in no cell of the grid
  afterwards, and is still in the store as it was.
\<close>

theorem move_piece_history:
  assumes "board_inv b" and "move_piece b fr fc tr tc = Inr (ok, b')"
  shows "(\<not> ok \<longrightarrow> move_history b' = move_history b) \<and>
         (ok \<longrightarrow>
            (\<exists>p. cell b (fr mod 8) (fc mod 8) = Some p \<and>
                 move_history b' = move_history b @
                   [\<lparr>mr_piece = p, mr_from = (fr, fc), mr_to = (tr, tc),
                     mr_captured = cell b tr tc\<rparr>] \<and>
                 (\<forall>d. cell b tr tc = Some d \<longrightarrow>
                      color (deref b d) \<noteq> color (deref b p) \<and>
                      \<not> on_board b' d \<and> store b' d = store b d)))"
proof (cases ok)
  case False
  with assms(2) have "b' = b"
    by (auto simp: move_piece_def is_valid_move_def Let_def
        split: sum.splits option.splits if_splits)
  with False show ?thesis by simp
next
  case True
  have wf: "wf_board b" using assms(1) by (simp add: board_inv_def)
  have uniq: "\<And>r c r' c' q. cell b r c = Some q \<Longrightarrow> cell b r' c' = Some q \<Longrightarrow> r = r' \<and> c = c'"
    using assms(1) unfolding board_inv_def by blast
  from assms(2) True obtain p where
    src: "cell b (fr mod 8) (fc mod 8) = Some p" and
    tgt: "in_bounds tr tc" and
    opp: "\<And>d. cell b tr tc = Some d \<Longrightarrow> color (deref b d) \<noteq> color (deref b p)" and
    b': "b' = moved b p fr fc tr tc"
    by (auto simp: move_piece_wf [OF wf] split: option.splits if_splits)
  have hist: "move_history b' = move_history b @
      [\<lparr>mr_piece = p, mr_from = (fr, fc), mr_to = (tr, tc), mr_captured = cell b tr tc\<rparr>]"
    by (simp add: b' moved_def)
  have cap: "color (deref b d) \<noteq> color (deref b p) \<and> \<not> on_board b' d \<and> store b' d = store b d"
    if d: "cell b tr tc = Some d" for d
  proof -
    have dp: "d \<noteq> p" using opp [OF d] by auto
    have "cell b' r c \<noteq> Some d" for r c
    proof
      assume "cell b' r c = Some d"
      then have "cell b r c = Some d \<and> \<not> (r = tr \<and> c = tc)"
        using dp by (auto simp: b' cell_moved [OF wf tgt] split: if_splits)
      with uniq [OF d, of r c] show False by auto
    qed
    then have "\<not> on_board b' d" by (simp add: on_board_def)
    moreover have "store b' d = store b d" using dp by (simp add: b' moved_def)
    ultimately show ?thesis using opp [OF d] by simp
  qed
  from True src hist cap show ?thesis by blast
qed

text \<open>
  The engine checks no move shape, so on the fresh board the white pawn on (6, 4)
  captures the black pawn on (1, 4).
\<close>

theorem move_piece_history_witness:
  "board_inv fresh_board \<and>
   move_piece fresh_board 6 4 1 4 = Inr (True, moved fresh_board 12 6 4 1 4) \<and>
   cell fresh_board 1 4 = Some 28 \<and>
   move_history (moved fresh_board 12 6 4 1 4) =
     [\<lparr>mr_piece = 12, mr_from = (6, 4), mr_to = (1, 4), mr_captured = Some 28\<rparr>] \<and>
   \<not> on_board (moved fresh_board 12 6 4 1 4) 28 \<and>
   store (moved fresh_board 12 6 4 1 4) 28 = store fresh_board 28"
proof -
  have m: "move_piece fresh_board 6 4 1 4 = Inr (True, moved fresh_board 12 6 4 1 4)"
    by (subst move_piece_wf [OF wf_fresh_board]) (simp add: fresh_eval)
  have c: "cell fresh_board 1 4 = Some 28" "move_history fresh_board = []"
    by (simp_all add: fresh_eval)
  from move_piece_history [OF board_inv_fresh_board m] c m board_inv_fresh_board
    fresh_cells(1)
  show ?thesis by auto
qed

subsection \<open>The board invariant\<close>

text \<open>
  C5. The board invariant (the piece in a cell stores that cell's coordinates, no
  piece is in two cells, and a cell is occupied exactly when a piece on the board
  stores its coordinates) holds of the board that \<open>ChessBoard()\<close> builds, and
  every call of \<open>move_piece\<close> that returns, with \<open>True\<close> or with
  \<open>False\<close>, preserves it.
\<close>

theorem board_inv_preserved:
  "(\<exists>b0. ChessBoard_init 8 = Inr b0 \<and> board_inv b0) \<and>
   (board_inv b \<longrightarrow> move_piece b fr fc tr tc = Inr (ok, b') \<longrightarrow> board_inv b')"
proof (intro conjI impI)
  show "\<exists>b0. ChessBoard_init 8 = Inr b0 \<and> board_inv b0"
    using ChessBoard_init_8 board_inv_fresh_board by blast
next
  assume inv: "board_inv b" and mv: "move_piece b fr fc tr tc = Inr (ok, b')"
  have wf: "wf_board b" using inv by (simp add: board_inv_def)
  show "board_inv b'"
  proof (cases ok)
    case False
    with mv have "b' = b"
      by (auto simp: move_piece_def is_valid_move_def Let_def
          split: sum.splits option.splits if_splits)
    with inv show ?thesis by simp
  next
    case True
    with mv obtain p where
      src: "cell b (fr mod 8) (fc mod 8) = Some p" and
      tgt: "in_bounds tr tc" and
      opp: "\<And>d. cell b tr tc = Some d \<Longrightarrow> color (deref b d) \<noteq> color (deref b p)" and
      b': "b' = moved b p fr fc tr tc"
      by (auto simp: move_piece_wf [OF wf] split: option.splits if_splits)
    have "\<not> (tr = fr mod 8 \<and> tc = fc mod 8)"
      using src opp by auto
    with inv tgt src show ?thesis unfolding b' by (rule board_inv_moved)
  qed
qed

text \<open>A move and a rejected move on the fresh board.\<close>

theorem board_inv_preserved_witness:
  "ChessBoard_init 8 = Inr fresh_board \<and> board_inv fresh_board \<and>
   move_piece fresh_board 6 4 4 4 = Inr (True, moved fresh_board 12 6 4 4 4) \<and>
   board_inv (moved fresh_board 12 6 4 4 4) \<and>
   move_piece fresh_board 4 4 5 5 = Inr (False, fresh_board)"
proof -
  have m: "move_piece fresh_board 6 4 4 4 = Inr (True, moved fresh_board 12 6 4 4 4)"
    by (subst move_piece_wf [OF wf_fresh_board]) (simp add: fresh_eval)
  have n: "move_piece fresh_board 4 4 5 5 = Inr (False, fresh_board)"
    by (subst move_piece_wf [OF wf_fresh_board]) (simp add: fresh_eval)
  have "board_inv (moved fresh_board 12 6 4 4 4)"
    using board_inv_preserved [of fresh_board 6 4 4 4 True "moved fresh_board 12 6 4 4 4"]
      board_inv_fresh_board m by blast
  with ChessBoard_init_8 board_inv_fresh_board m n show ?thesis by simp
qed

subsection \<open>The fresh board\<close>

text \<open>
  C6. \<open>ChessBoard()\<close>, that is \<open>ChessBoard_init 8\<close>, raises nothing and
  places exactly 32 pieces, all different objects, 16 of each colour: black's back
  rank on row 0 and black pawns on row 1, white pawns on row 6 and white's back rank
  on row 7, each back rank in the order rook, knight, bishop, queen, king, bishop,
  knight, rook (so the queens are on column 3 and the kings on column 4), rows 2 to 5
  empty, every piece with \<open>has_moved = False\<close>; \<open>current_turn\<close> is
  \<open>WHITE\<close> and \<open>move_history\<close> is empty.
\<close>

theorem fresh_board_layout:
  "ChessBoard_init 8 = Inr fresh_board \<and>
   map (map (map_option (\<lambda>p. (color (deref fresh_board p), ptype (deref fresh_board p),
                                has_moved (deref fresh_board p)))))
       (board fresh_board) =
     [[Some (BLACK, ROOK, False), Some (BLACK, KNIGHT, False), Some (BLACK, BISHOP, False),
       Some (BLACK, QUEEN, False), Some (BLACK, KING, False), Some (BLACK, BISHOP, False),
       Some (BLACK, KNIGHT, False), Some (BLACK, ROOK, False)],
      replicate 8 (Some (BLACK, PAWN, False)),
      replicate 8 None, replicate 8 None, replicate 8 None, replicate 8 None,
      replicate 8 (Some (WHITE, PAWN, False)),
      [Some (WHITE, ROOK, False), Some (WHITE, KNIGHT, False), Some (WHITE, BISHOP, False),
       Some (WHITE, QUEEN, False), Some (WHITE, KING, False), Some (WHITE, BISHOP, False),
       Some (WHITE, KNIGHT, False), Some (WHITE, ROOK, False)]] \<and>
   length (grid_pieces fresh_board) = 32 \<and>
   distinct (grid_pieces fresh_board) \<and>
   length (filter (\<lambda>p. color (deref fresh_board p) = WHITE) (grid_pieces fresh_board)) = 16 \<and>
   length (filter (\<lambda>p. color (deref fresh_board p) = BLACK) (grid_pieces fresh_board)) = 16 \<and>
   board_size fresh_board = 8 \<and>
   current_turn fresh_board = WHITE \<and>
   move_history fresh_board = []"
proof -
  have g: "grid_pieces fresh_board =
      [16, 17, 18, 19, 20, 21, 22, 23, 24, 25, 26, 27, 28, 29, 30, 31,
       8, 9, 10, 11, 12, 13, 14, 15, 0, 1, 2, 3, 4, 5, 6, 7]"
    by (simp add: grid_pieces_def fresh_board_def)
  have l: "map (map (map_option (\<lambda>p. (color (deref fresh_board p), ptype (deref fresh_board p),
                                has_moved (deref fresh_board p)))))
       (board fresh_board) =
     [[Some (BLACK, ROOK, False), Some (BLACK, KNIGHT, False), Some (BLACK, BISHOP, False),
       Some (BLACK, QUEEN, False), Some (BLACK, KING, False), Some (BLACK, BISHOP, False),
       Some (BLACK, KNIGHT, False), Some (BLACK, ROOK, False)],
      replicate 8 (Some (BLACK, PAWN, False)),
      replicate 8 None, replicate 8 None, replicate 8 None, replicate 8 None,
      replicate 8 (Some (WHITE, PAWN, False)),
      [Some (WHITE, ROOK, False), Some (WHITE, KNIGHT, False), Some (WHITE, BISHOP, False),
       Some (WHITE, QUEEN, False), Some (WHITE, KING, False), Some (WHITE, BISHOP, False),
       Some (WHITE, KNIGHT, False), Some (WHITE, ROOK, False)]]"
    by (simp add: fresh_board_def deref_def ChessPiece_init_def rep8)
  have w: "length (filter (\<lambda>p. color (deref fresh_board p) = WHITE) (grid_pieces fresh_board)) = 16"
    unfolding g by (simp add: fresh_board_def deref_def ChessPiece_init_def)
  have k: "length (filter (\<lambda>p. color (deref fresh_board p) = BLACK) (grid_pieces fresh_board)) = 16"
    unfolding g by (simp add: fresh_board_def deref_def ChessPiece_init_def)
  have d: "distinct (grid_pieces fresh_board)" "length (grid_pieces fresh_board) = 32"
    unfolding g by simp_all
  have r: "board_size fresh_board = 8" "current_turn fresh_board = WHITE"
    "move_history fresh_board = []"
    by (simp_all add: fresh_board_def)
  from ChessBoard_init_8 l d w k r show ?thesis by blast
qed

text \<open>The same read off the constructor's result.\<close>

theorem fresh_board_layout_witness:
  "map_sum id current_turn (ChessBoard_init 8) = Inr WHITE \<and>
   map_sum id move_history (ChessBoard_init 8) = Inr [] \<and>
   map_sum id (\<lambda>b. length (grid_pieces b)) (ChessBoard_init 8) = Inr 32 \<and>
   map_sum id (\<lambda>b. map_option (\<lambda>p. ptype (deref b p)) (board b ! 7 ! 3)) (ChessBoard_init 8) = Inr (Some QUEEN) \<and>
   map_sum id (\<lambda>b. map_option (\<lambda>p. ptype (deref b p)) (board b ! 0 ! 4)) (ChessBoard_init 8) = Inr (Some KING)"
proof -
  have i: "ChessBoard_init 8 = Inr fresh_board"
    by (rule conjunct1 [OF fresh_board_layout])
  show ?thesis
    unfolding i by (simp add: grid_pieces_def fresh_board_def deref_def ChessPiece_init_def)
qed

subsection \<open>The validity check\<close>

text \<open>
  C7. \<open>is_valid_move\<close> returns the state it was given, and returns
  \<open>False\<close> exactly when the target lies outside \<open>[0, 8)\<close> in either
  component or the target cell holds a piece of the colour of the given piece, and
  \<open>True\<close> in every other case. Nothing else enters the result: not the kind of
  the piece, not where it stands, not what lies between.
\<close>

theorem is_valid_move_spec:
  assumes "wf_board b"
  shows "is_valid_move b p r c =
     Inr (\<not> (\<not> in_bounds r c \<or>
              (\<exists>d. cell b r c = Some d \<and> color (deref b d) = color (deref b p))), b)"
  using assms by (auto simp: is_valid_move_wf)

text \<open>
  On the fresh board the white bishop of (7, 2) may go straight up to (5, 2), through
  its own pawn, and onto the black bishop on (0, 2); it may not go onto its own pawn
  on (6, 2) nor off the board.
\<close>

theorem is_valid_move_spec_witness:
  "wf_board fresh_board \<and>
   is_valid_move fresh_board 2 5 2 = Inr (True, fresh_board) \<and>
   is_valid_move fresh_board 2 6 2 = Inr (False, fresh_board) \<and>
   is_valid_move fresh_board 2 8 2 = Inr (False, fresh_board) \<and>
   is_valid_move fresh_board 2 0 (- 1) = Inr (False, fresh_board) \<and>
   is_valid_move fresh_board 2 0 2 = Inr (True, fresh_board)"
proof -
  have c: "cell fresh_board 5 2 = None" "cell fresh_board 6 2 = Some 10"
    "cell fresh_board 0 2 = Some 18"
    "color (deref fresh_board 2) = WHITE" "color (deref fresh_board 10) = WHITE"
    "color (deref fresh_board 18) = BLACK"
    by (simp_all add: fresh_eval)
  have b: "in_bounds 5 2" "in_bounds 6 2" "\<not> in_bounds 8 2" "\<not> in_bounds 0 (- 1)" "in_bounds 0 2"
    by (simp_all add: in_bounds_def)
  show ?thesis
    using wf_fresh_board
      is_valid_move_spec [OF wf_fresh_board, of 2 5 2]
      is_valid_move_spec [OF wf_fresh_board, of 2 6 2]
      is_valid_move_spec [OF wf_fresh_board, of 2 8 2]
      is_valid_move_spec [OF wf_fresh_board, of 2 0 "- 1"]
      is_valid_move_spec [OF wf_fresh_board, of 2 0 2]
    by (simp add: c b)
qed

subsection \<open>Subscripts in range\<close>

text \<open>
  C9 (as amended). \<open>move_piece\<close> reads \<open>self.board[from_row][from_col]\<close>
  with no bounds check, and raises \<open>IndexError\<close> exactly when a source
  subscript lies outside \<open>[-8, 8)\<close>, whatever the destination: the destination
  may be any pair of integers, because \<open>is_valid_move\<close> guards it. In
  particular, when the source lies in \<open>[0, 8)\<close> in both components, every
  subscript of the call is in range and the call returns.
\<close>

theorem move_piece_index_error_iff:
  assumes "wf_board b"
  shows "(move_piece b fr fc tr tc = Inl IndexError \<longleftrightarrow>
            \<not> (- 8 \<le> fr \<and> fr < 8 \<and> - 8 \<le> fc \<and> fc < 8)) \<and>
         (in_bounds fr fc \<longrightarrow> (\<exists>ok b'. move_piece b fr fc tr tc = Inr (ok, b')))"
proof -
  have a: "move_piece b fr fc tr tc = Inl IndexError \<longleftrightarrow>
            \<not> (- 8 \<le> fr \<and> fr < 8 \<and> - 8 \<le> fc \<and> fc < 8)"
    by (simp add: move_piece_wf [OF assms] split: option.splits)
  have "\<exists>ok b'. move_piece b fr fc tr tc = Inr (ok, b')" if "in_bounds fr fc"
  proof -
    from that a have "move_piece b fr fc tr tc \<noteq> Inl IndexError"
      by (simp add: in_bounds_def)
    then show ?thesis
      by (cases "move_piece b fr fc tr tc") (auto intro: error.exhaust)
  qed
  with a show ?thesis by blast
qed

text \<open>
  A destination far off the board is rejected without an error; a source row of 8 or
  a source column of -9 raises.
\<close>

theorem move_piece_index_error_iff_witness:
  "wf_board fresh_board \<and> in_bounds 6 4 \<and>
   move_piece fresh_board 6 4 100 (- 100) = Inr (False, fresh_board) \<and>
   move_piece fresh_board 8 0 4 4 = Inl IndexError \<and>
   move_piece fresh_board 0 (- 9) 4 4 = Inl IndexError"
proof -
  have i: "in_bounds 6 4" by (simp add: in_bounds_def)
  have "\<exists>ok b'. move_piece fresh_board 6 4 100 (- 100) = Inr (ok, b')"
    using move_piece_index_error_iff [OF wf_fresh_board, of 6 4 100 "- 100"] i by blast
  moreover have "move_piece fresh_board 6 4 100 (- 100) = Inr (False, fresh_board)"
    by (subst move_piece_wf [OF wf_fresh_board]) (simp add: fresh_eval)
  moreover have "move_piece fresh_board 8 0 4 4 = Inl IndexError"
    using move_piece_index_error_iff [OF wf_fresh_board, of 8 0 4 4] by simp
  moreover have "move_piece fresh_board 0 (- 9) 4 4 = Inl IndexError"
    using move_piece_index_error_iff [OF wf_fresh_board, of 0 "- 9" 4 4] by simp
  ultimately show ?thesis using wf_fresh_board i by simp
qed

text \<open>
  The source (-1, 0) is outside \<open>[0, 8)\<close>, yet its subscripts are in range
  for Python: the read gives the rook of row 7 and the call returns \<open>True\<close>.
\<close>

theorem move_piece_negative_source_in_range:
  "\<not> in_bounds (- 1) 0 \<and>
   move_piece fresh_board (- 1) 0 5 0 = Inr (True, moved fresh_board 0 (- 1) 0 5 0) \<and>
   getitem2 (board fresh_board) (- 1) 0 = Inr (Some 0)"
proof -
  have "move_piece fresh_board (- 1) 0 5 0 = Inr (True, moved fresh_board 0 (- 1) 0 5 0)"
    by (subst move_piece_wf [OF wf_fresh_board]) (simp add: fresh_eval)
  moreover have "getitem2 (board fresh_board) (- 1) 0 = Inr (Some 0)"
    by (subst getitem2_8 [OF grid8_fresh_board]) (simp add: fresh_board_def)
  ultimately show ?thesis by (simp add: in_bounds_def)
qed

subsection \<open>The null move\<close>

text \<open>
  C10. On every board state and for every cell \<open>(r, c)\<close> of the grid,
  \<open>move_piece(r, c, r, c)\<close> returns \<open>False\<close> and changes nothing: the
  source read gives the content of the cell, and when that is a piece,
  \<open>is_valid_move\<close> rejects the destination, which holds that very piece.
\<close>

theorem null_move_rejected:
  assumes "wf_board b" and "in_bounds r c"
  shows "move_piece b r c r c = Inr (False, b) \<and>
         getitem2 (board b) r c = Inr (cell b r c) \<and>
         (\<forall>p. cell b r c = Some p \<longrightarrow> is_valid_move b p r c = Inr (False, b))"
proof -
  have m: "r mod 8 = r \<and> c mod 8 = c" using assms(2) by (rule in_bounds_mod)
  have rng: "- 8 \<le> r \<and> r < 8 \<and> - 8 \<le> c \<and> c < 8" using assms(2) by (simp add: in_bounds_def)
  have "move_piece b r c r c = Inr (False, b)"
    using m rng by (auto simp: move_piece_wf [OF assms(1)] split: option.splits)
  moreover have "getitem2 (board b) r c = Inr (cell b r c)"
    using assms by (rule cell_getitem2)
  moreover have "is_valid_move b p r c = Inr (False, b)" if "cell b r c = Some p" for p
    using that by (simp add: is_valid_move_wf [OF assms(1)])
  ultimately show ?thesis by simp
qed

text \<open>
  On the fresh board: a white pawn (the side to move), an empty cell, a black pawn.
\<close>

theorem null_move_rejected_witness:
  "wf_board fresh_board \<and> in_bounds 6 4 \<and> in_bounds 4 4 \<and> in_bounds 1 0 \<and>
   move_piece fresh_board 6 4 6 4 = Inr (False, fresh_board) \<and>
   move_piece fresh_board 4 4 4 4 = Inr (False, fresh_board) \<and>
   move_piece fresh_board 1 0 1 0 = Inr (False, fresh_board) \<and>
   is_valid_move fresh_board 12 6 4 = Inr (False, fresh_board)"
proof -
  have i: "in_bounds 6 4" "in_bounds 4 4" "in_bounds 1 0" by (simp_all add: in_bounds_def)
  show ?thesis
    using wf_fresh_board i fresh_cells(1)
      null_move_rejected [OF wf_fresh_board i(1)]
      null_move_rejected [OF wf_fresh_board i(2)]
      null_move_rejected [OF wf_fresh_board i(3)]
    by simp
qed

subsection \<open>Glyphs\<close>

text \<open>
  C8. The glyph of a constructed piece is the entry of the fixed table
  \<open>get_symbol\<close> at its colour and kind, whatever its coordinates, and the table
  gives twelve pairwise distinct glyphs to the twelve pairs of colour and kind.
\<close>

theorem glyph_table_distinct:
  "symbol (ChessPiece_init t clr r c) = get_symbol clr t \<and>
   distinct [get_symbol clr' t'. clr' \<leftarrow> [WHITE, BLACK],
                                 t' \<leftarrow> [PAWN, ROOK, KNIGHT, BISHOP, QUEEN, KING]] \<and>
   ((get_symbol clr t = get_symbol clr2 t2) = (clr = clr2 \<and> t = t2))"
  by (cases clr; cases t; cases clr2; cases t2) (simp_all add: ChessPiece_init_def)

text \<open>The white king's glyph, wherever the king stands, and the black king's.\<close>

theorem glyph_table_distinct_witness:
  "symbol (ChessPiece_init KING WHITE 7 4) = 0x2654 \<and>
   symbol (ChessPiece_init KING WHITE 0 0) = 0x2654 \<and>
   get_symbol BLACK KING \<noteq> get_symbol WHITE KING"
  using glyph_table_distinct [of KING WHITE 7 4 BLACK KING]
    glyph_table_distinct [of KING WHITE 0 0 BLACK KING]
  by simp

end
